theory Spec2Isabelle
  imports Main
begin

section \<open>Exceptions and results\<close>

text \<open>
  The module \<^verbatim>\<open>conda/gateways/disk/delete.py\<close> works on the file system through the
  operating system and through helpers of sibling modules. A command is modelled as a
  function from the state of the world to the state it leaves and the exception it raised,
  if any. \<open>OSError\<close> stands for \<^verbatim>\<open>OSError\<close> and \<^verbatim>\<open>IOError\<close>, which every handler of the module
  catches together.
\<close>

type_synonym path = string

datatype errno = ENOENT | EACCES | EPERM | ENOTEMPTY | ENOTDIR | EISDIR | EBUSY | EEXIST
  | EOTHER

datatype exn = OSError errno | CalledProcessError int | OtherError

type_synonym 's cmd = "'s \<Rightarrow> 's \<times> exn option"

definition os_call :: "'s \<times> errno option \<Rightarrow> 's \<times> exn option" where
  "os_call r = (fst r, map_option OSError (snd r))"

fun exn_errno :: "exn \<Rightarrow> errno option" where
  "exn_errno (OSError e) = Some e"
| "exn_errno (CalledProcessError n) = None"
| "exn_errno OtherError = None"

section \<open>The environment of the module\<close>

text \<open>
  Everything the module imports is a field of the environment: the platform flag
  \<^verbatim>\<open>on_win\<close>, the constant \<^verbatim>\<open>MAX_TRIES\<close>, the prefixes, the functions of \<^verbatim>\<open>os\<close>, \<^verbatim>\<open>os.path\<close>,
  \<^verbatim>\<open>shutil\<close> and \<^verbatim>\<open>subprocess\<close>, and the helpers \<^verbatim>\<open>make_writable\<close>,
  \<^verbatim>\<open>recursive_make_writable\<close>, \<^verbatim>\<open>exp_backoff_fn\<close>, \<^verbatim>\<open>islink\<close> and \<^verbatim>\<open>lexists\<close> of the sibling
  modules. The system calls raise \<^verbatim>\<open>OSError\<close> only, so they return an \<open>errno option\<close>; the
  existence tests of \<^verbatim>\<open>os.path\<close> never raise. \<open>walk\<close> gives the triples that \<^verbatim>\<open>os.walk\<close>
  yields, listed when the walk starts; its flag is \<^verbatim>\<open>topdown\<close>.
\<close>

record 's os =
  on_win :: bool
  MAX_TRIES :: nat
  conda_prefix :: path
  sys_prefix :: path
  join :: "path \<Rightarrow> path \<Rightarrow> path"
  dirname :: "path \<Rightarrow> path"
  split_path :: "path \<Rightarrow> path \<times> path"
  normcase :: "string \<Rightarrow> string"
  abspath :: "path \<Rightarrow> 's \<Rightarrow> errno + path"
  getcwd :: "'s \<Rightarrow> errno + path"
  isdir :: "path \<Rightarrow> 's \<Rightarrow> bool"
  islink :: "path \<Rightarrow> 's \<Rightarrow> bool"
  lexists :: "path \<Rightarrow> 's \<Rightarrow> bool"
  listdir :: "path \<Rightarrow> 's \<Rightarrow> errno + string list"
  walk :: "path \<Rightarrow> bool \<Rightarrow> 's \<Rightarrow> (path \<times> string list \<times> string list) list"
  unlink :: "path \<Rightarrow> 's \<Rightarrow> 's \<times> errno option"
  rename :: "path \<Rightarrow> path \<Rightarrow> 's \<Rightarrow> 's \<times> errno option"
  rmdir :: "path \<Rightarrow> 's \<Rightarrow> 's \<times> errno option"
  makedirs :: "path \<Rightarrow> 's \<Rightarrow> 's \<times> errno option"
  shutil_rmtree :: "path \<Rightarrow> 's cmd"
  check_call :: "string list \<Rightarrow> 's cmd"
  popen_communicate :: "string list \<Rightarrow> 's cmd"
  make_writable :: "path \<Rightarrow> 's cmd"
  recursive_make_writable :: "path \<Rightarrow> nat \<Rightarrow> 's cmd"
  exp_backoff_fn :: "(path \<Rightarrow> 's cmd) \<Rightarrow> path
     \<Rightarrow> ((path \<Rightarrow> 's cmd) \<Rightarrow> path \<Rightarrow> exn \<Rightarrow> 's cmd) option \<Rightarrow> nat \<Rightarrow> 's cmd"

section \<open>The functions of the module\<close>

text \<open>A \<^verbatim>\<open>for\<close> loop over a list of commands: it stops at the first exception.\<close>

fun for_each :: "('a \<Rightarrow> 's cmd) \<Rightarrow> 'a list \<Rightarrow> 's cmd" where
  "for_each f [] s = (s, None)"
| "for_each f (x # xs) s =
     (case f x s of
        (s', None) \<Rightarrow> for_each f xs s'
      | (s', Some e) \<Rightarrow> (s', Some e))"

text \<open>Sequencing: the second command runs when the first one raised nothing.\<close>

definition and_then :: "'s cmd \<Rightarrow> 's cmd \<Rightarrow> 's cmd" where
  "and_then c d s = (case c s of (s', None) \<Rightarrow> d s' | (s', Some e) \<Rightarrow> (s', Some e))"

text \<open>
  \<^verbatim>\<open>rmtree(path, *args, **kwargs)\<close>: the extra arguments are ignored. On Windows one shell
  command; elsewhere \<^verbatim>\<open>makedirs('.empty')\<close> with every error passed over, the \<^verbatim>\<open>rsync\<close> call
  against the empty directory under the working directory, and the removal of
  \<^verbatim>\<open>.empty\<close>. Then \<^verbatim>\<open>rmdir(path)\<close>.
\<close>

definition rmtree :: "'s os \<Rightarrow> path \<Rightarrow> 's cmd" where
  "rmtree env p =
     and_then
       (if on_win env then check_call env [''rd /s /q '' @ [CHR 0x22] @ p @ [CHR 0x22]]
        else (\<lambda>s. let sa = fst (makedirs env ''.empty'' s) in
               (case getcwd env sa of
                  Inl e \<Rightarrow> (sa, Some (OSError e))
                | Inr cwd \<Rightarrow>
                    and_then
                      (check_call env [''rsync'', ''-a'', ''--delete'',
                         join env cwd ''.empty'' @ ''/'', p @ ''/''])
                      (shutil_rmtree env ''.empty'') sa)))
       (\<lambda>s. os_call (rmdir env p s))"

text \<open>
  \<^verbatim>\<open>unlink_or_rename_to_trash(path)\<close>: \<^verbatim>\<open>make_writable\<close> and \<^verbatim>\<open>unlink\<close>; on an \<^verbatim>\<open>OSError\<close> of
  either, the trash script on Windows (its exit status is not read) and the rename to
  \<^verbatim>\<open>path + ".trash"\<close> elsewhere.
\<close>

definition unlink_or_rename_to_trash :: "'s os \<Rightarrow> path \<Rightarrow> 's cmd" where
  "unlink_or_rename_to_trash env p s =
     (case and_then (make_writable env p) (\<lambda>s. os_call (unlink env p s)) s of
        (s', None) \<Rightarrow> (s', None)
      | (s', Some (OSError e)) \<Rightarrow>
          (if on_win env then
             (let condabin_dir = join env (conda_prefix env) ''condabin'';
                  trash_script = join env condabin_dir ''rename_trash.bat'';
                  (dn, fn) = split_path env p
              in popen_communicate env [''cmd.exe'', ''/C'', trash_script, dn, fn] s')
           else os_call (rename env p (p @ ''.trash'') s'))
      | (s', Some x) \<Rightarrow> (s', Some x))"

text \<open>
  \<^verbatim>\<open>remove_empty_parent_paths(path)\<close>: the \<^verbatim>\<open>while\<close> loop has no bound of its own, so the
  result is \<open>None\<close> when it does not return.
\<close>

partial_function (option) remove_empty_loop :: "'s os \<Rightarrow> path \<Rightarrow> 's \<Rightarrow> ('s \<times> exn option) option"
  where
  "remove_empty_loop env parent_path s =
     (if isdir env parent_path s then
        (case listdir env parent_path s of
           Inl e \<Rightarrow> Some (s, Some (OSError e))
         | Inr names \<Rightarrow>
             (if names = [] then
                (case rmdir env parent_path s of
                   (s', Some e) \<Rightarrow> Some (s', Some (OSError e))
                 | (s', None) \<Rightarrow> remove_empty_loop env (dirname env parent_path) s')
              else Some (s, None)))
      else Some (s, None))"

definition remove_empty_parent_paths :: "'s os \<Rightarrow> path \<Rightarrow> 's \<Rightarrow> ('s \<times> exn option) option"
  where
  "remove_empty_parent_paths env p s = remove_empty_loop env (dirname env p) s"

text \<open>
  \<^verbatim>\<open>backoff_rmdir(dirpath, max_tries)\<close> with its two local functions. \<^verbatim>\<open>retry\<close> is the
  \<^verbatim>\<open>onerror\<close> callback. \<open>inner_rmdir\<close> is the local \<^verbatim>\<open>_rmdir\<close>: it calls
  \<^verbatim>\<open>recursive_make_writable\<close> with its default \<^verbatim>\<open>max_tries\<close> (taken to be \<^verbatim>\<open>MAX_TRIES\<close>) and
  passes over an \<^verbatim>\<open>OSError\<close> whose errno is \<^verbatim>\<open>ENOENT\<close>. \<open>walk_body\<close> is the body of the loop
  over the bottom-up walk.
\<close>

definition retry :: "'s os \<Rightarrow> nat \<Rightarrow> (path \<Rightarrow> 's cmd) \<Rightarrow> path \<Rightarrow> exn \<Rightarrow> 's cmd" where
  "retry env max_tries func p exc =
     (if exn_errno exc = Some ENOENT then (\<lambda>s. (s, None))
      else and_then (recursive_make_writable env (dirname env p) max_tries) (func p))"

definition inner_rmdir :: "'s os \<Rightarrow> nat \<Rightarrow> path \<Rightarrow> 's cmd" where
  "inner_rmdir env max_tries p s =
     (case and_then (recursive_make_writable env p (MAX_TRIES env))
             (exp_backoff_fn env (rmtree env) p (Some (retry env max_tries)) max_tries) s of
        (s', Some (OSError e)) \<Rightarrow> (if e = ENOENT then (s', None) else (s', Some (OSError e)))
      | r \<Rightarrow> r)"

definition walk_body :: "'s os \<Rightarrow> nat \<Rightarrow> path \<times> string list \<times> string list \<Rightarrow> 's cmd" where
  "walk_body env max_tries = (\<lambda>(root, dirs, files).
     and_then (for_each (\<lambda>file. unlink_or_rename_to_trash env (join env root file)) files)
              (for_each (\<lambda>dir. inner_rmdir env max_tries (join env root dir)) dirs))"

definition backoff_rmdir :: "'s os \<Rightarrow> path \<Rightarrow> nat \<Rightarrow> 's cmd" where
  "backoff_rmdir env dirpath max_tries s =
     (if \<not> isdir env dirpath s then (s, None)
      else
        (let s1 = fst (rmtree env dirpath s) in
         and_then (for_each (walk_body env max_tries) (walk env dirpath False s1))
                  (inner_rmdir env max_tries dirpath) s1))"

text \<open>
  \<^verbatim>\<open>rm_rf(path, max_retries, trash, clean_empty_parents)\<close>. \<open>rm_rf_try\<close> is the \<^verbatim>\<open>try\<close> block:
  it gives the state the block leaves, the value of the variable \<^verbatim>\<open>path\<close> (rebound by
  \<^verbatim>\<open>abspath\<close> when that returned) and the exception in flight. The \<^verbatim>\<open>finally\<close> block
  returns \<^verbatim>\<open>False\<close>, dropping the exception, when the path is still there; otherwise the
  exception goes on to the caller. The result of \<open>rm_rf\<close> is the final state with the
  exception raised (\<open>Inl\<close>) or the boolean returned (\<open>Inr\<close>), and \<open>None\<close> when the loop of
  \<open>remove_empty_parent_paths\<close> does not return.
\<close>

definition rm_rf_try :: "'s os \<Rightarrow> path \<Rightarrow> 's \<Rightarrow> 's \<times> path \<times> exn option" where
  "rm_rf_try env p s =
     (case abspath env p s of
        Inl e \<Rightarrow> (s, p, Some (OSError e))
      | Inr ap \<Rightarrow>
          (if isdir env ap s \<and> \<not> islink env ap s then
             (case backoff_rmdir env ap (MAX_TRIES env) s of (s', x) \<Rightarrow> (s', ap, x))
           else if lexists env ap s then
             (case unlink_or_rename_to_trash env ap s of (s', x) \<Rightarrow> (s', ap, x))
           else (s, ap, None)))"

definition rm_rf :: "'s os \<Rightarrow> path \<Rightarrow> nat \<Rightarrow> bool \<Rightarrow> bool \<Rightarrow> 's \<Rightarrow> ('s \<times> (exn + bool)) option"
  where
  "rm_rf env p max_retries trash clean_empty_parents s =
     (case rm_rf_try env p s of (s1, p1, x) \<Rightarrow>
        (if lexists env p1 s1 then Some (s1, Inr False)
         else (case x of
                 Some e \<Rightarrow> Some (s1, Inl e)
               | None \<Rightarrow>
                   (if clean_empty_parents then
                      (case remove_empty_parent_paths env p1 s1 of
                         None \<Rightarrow> None
                       | Some (s2, Some e) \<Rightarrow> Some (s2, Inl e)
                       | Some (s2, None) \<Rightarrow> Some (s2, Inr True))
                    else Some (s1, Inr True)))))"

text \<open>
  \<^verbatim>\<open>delete_trash(prefix)\<close>: \<^verbatim>\<open>fnmatch.fnmatch(basename, "*.trash")\<close> normalises the case of
  the name with \<^verbatim>\<open>os.path.normcase\<close> and matches the whole name, so it holds when the
  normalised name ends with \<^verbatim>\<open>.trash\<close>. An \<^verbatim>\<open>OSError\<close> of \<^verbatim>\<open>unlink\<close> is logged and the loop goes on.
\<close>

definition endswith :: "string \<Rightarrow> string \<Rightarrow> bool" where
  "endswith name suf = (length suf \<le> length name \<and> drop (length name - length suf) name = suf)"

definition fnmatch_trash :: "'s os \<Rightarrow> string \<Rightarrow> bool" where
  "fnmatch_trash env basename = endswith (normcase env basename) ''.trash''"

definition delete_trash_files :: "'s os \<Rightarrow> path \<Rightarrow> string list \<Rightarrow> 's \<Rightarrow> 's" where
  "delete_trash_files env root files s =
     fold (\<lambda>basename s. if fnmatch_trash env basename
                         then fst (unlink env (join env root basename) s) else s) files s"

definition delete_trash :: "'s os \<Rightarrow> path option \<Rightarrow> 's \<Rightarrow> 's" where
  "delete_trash env prefix s =
     (let prefix' = (case prefix of None \<Rightarrow> sys_prefix env
                     | Some p \<Rightarrow> if p = [] then sys_prefix env else p)
      in fold (\<lambda>(root, dirs, files) s. delete_trash_files env root files s)
           (walk env prefix' True s) s)"

section \<open>A small POSIX file system\<close>

text \<open>
  An environment to run the functions on: a file system of regular files and directories
  named by normalised absolute paths, without symbolic links. A directory in \<open>locked\<close>
  belongs to another user: no entry can be added to it or removed from it, and no
  \<^verbatim>\<open>chmod\<close> of this process changes that. A file in \<open>busy\<close> is held by another process
  in a way that refuses \<^verbatim>\<open>unlink\<close> and allows \<^verbatim>\<open>rename\<close>. A file in \<open>racing\<close> is removed by
  another process just before this process unlinks or renames it. The machine has no
  \<^verbatim>\<open>rsync\<close> and no \<^verbatim>\<open>cmd.exe\<close>: starting either raises \<^verbatim>\<open>FileNotFoundError\<close>. \<open>calls\<close> records
  the calls of the helpers, the latest first.
\<close>

datatype call = RecursiveMakeWritable path nat | ExpBackoffFn path nat
  | CheckCall "string list" | Popen "string list"

record fs =
  files :: "path list"
  dirs :: "path list"
  locked :: "path list"
  busy :: "path list"
  racing :: "path list"
  cwd :: path
  calls :: "call list"

definition posix_split :: "path \<Rightarrow> path \<times> path" where
  "posix_split p =
     (let tail = rev (takeWhile (\<lambda>c. c \<noteq> CHR ''/'') (rev p));
          head = rev (dropWhile (\<lambda>c. c \<noteq> CHR ''/'') (rev p))
      in (if head \<noteq> [] \<and> \<not> list_all (\<lambda>c. c = CHR ''/'') head
          then rev (dropWhile (\<lambda>c. c = CHR ''/'') (rev head)) else head, tail))"

definition posix_dirname :: "path \<Rightarrow> path" where
  "posix_dirname p = fst (posix_split p)"

definition posix_basename :: "path \<Rightarrow> path" where
  "posix_basename p = snd (posix_split p)"

definition posix_join :: "path \<Rightarrow> path \<Rightarrow> path" where
  "posix_join a b =
     (if take 1 b = ''/'' then b
      else if a = [] \<or> last a = CHR ''/'' then a @ b
      else a @ ''/'' @ b)"

definition under :: "path \<Rightarrow> path \<Rightarrow> bool" where
  "under d p = (p \<noteq> d \<and> take (length (posix_join d [])) p = posix_join d [])"

definition children :: "path \<Rightarrow> path list \<Rightarrow> string list" where
  "children d ps = map posix_basename (filter (\<lambda>q. q \<noteq> d \<and> posix_dirname q = d) ps)"

definition settle :: "path \<Rightarrow> fs \<Rightarrow> fs" where
  "settle p s = (if p \<in> set (racing s)
                 then s\<lparr>files := removeAll p (files s), racing := removeAll p (racing s)\<rparr>
                 else s)"

definition t_abspath :: "path \<Rightarrow> fs \<Rightarrow> errno + path" where
  "t_abspath p s = Inr (if take 1 p = ''/'' then p else posix_join (cwd s) p)"

definition t_lexists :: "path \<Rightarrow> fs \<Rightarrow> bool" where
  "t_lexists p s = (p \<in> set (files s) \<or> p \<in> set (dirs s))"

definition t_isdir :: "path \<Rightarrow> fs \<Rightarrow> bool" where
  "t_isdir p s = (p \<in> set (dirs s))"

definition t_listdir :: "path \<Rightarrow> fs \<Rightarrow> errno + string list" where
  "t_listdir p s =
     (if p \<in> set (dirs s) then Inr (children p (dirs s) @ children p (files s))
      else if p \<in> set (files s) then Inl ENOTDIR else Inl ENOENT)"

definition t_walk :: "path \<Rightarrow> bool \<Rightarrow> fs \<Rightarrow> (path \<times> string list \<times> string list) list" where
  "t_walk root topdown s =
     (if root \<in> set (dirs s) then
        (let ds = filter (\<lambda>d. d = root \<or> under root d) (dirs s)
         in map (\<lambda>d. (d, children d (dirs s), children d (files s)))
              (if topdown then ds else rev ds))
      else [])"

definition t_unlink :: "path \<Rightarrow> fs \<Rightarrow> fs \<times> errno option" where
  "t_unlink p s0 =
     (let s = settle p s0 in
      if p \<in> set (dirs s) then (s, Some EISDIR)
      else if p \<notin> set (files s) then (s, Some ENOENT)
      else if posix_dirname p \<in> set (locked s) then (s, Some EACCES)
      else if p \<in> set (busy s) then (s, Some EBUSY)
      else (s\<lparr>files := removeAll p (files s)\<rparr>, None))"

definition moved :: "path \<Rightarrow> path \<Rightarrow> path \<Rightarrow> path" where
  "moved p q x = (if x = p \<or> under p x then q @ drop (length p) x else x)"

definition t_rename :: "path \<Rightarrow> path \<Rightarrow> fs \<Rightarrow> fs \<times> errno option" where
  "t_rename p q s0 =
     (let s = settle p s0 in
      if p \<notin> set (files s) \<and> p \<notin> set (dirs s) then (s, Some ENOENT)
      else if posix_dirname q \<notin> set (dirs s) then (s, Some ENOENT)
      else if posix_dirname p \<in> set (locked s) \<or> posix_dirname q \<in> set (locked s)
        then (s, Some EACCES)
      else if p \<in> set (files s) \<and> q \<in> set (dirs s) then (s, Some EISDIR)
      else if p \<in> set (dirs s) \<and> q \<in> set (files s) then (s, Some ENOTDIR)
      else if p \<in> set (dirs s) \<and> q \<in> set (dirs s) \<and> t_listdir q s \<noteq> Inr []
        then (s, Some ENOTEMPTY)
      else (s\<lparr>files := map (moved p q) (removeAll q (files s)),
              dirs := map (moved p q) (removeAll q (dirs s)),
              busy := map (moved p q) (busy s)\<rparr>, None))"

definition t_rmdir :: "path \<Rightarrow> fs \<Rightarrow> fs \<times> errno option" where
  "t_rmdir p s =
     (if p \<in> set (files s) then (s, Some ENOTDIR)
      else if p \<notin> set (dirs s) then (s, Some ENOENT)
      else if t_listdir p s \<noteq> Inr [] then (s, Some ENOTEMPTY)
      else if posix_dirname p = p then (s, Some EBUSY)
      else if posix_dirname p \<in> set (locked s) then (s, Some EACCES)
      else (s\<lparr>dirs := removeAll p (dirs s)\<rparr>, None))"

definition t_makedirs :: "path \<Rightarrow> fs \<Rightarrow> fs \<times> errno option" where
  "t_makedirs p s =
     (let ap = (if take 1 p = ''/'' then p else posix_join (cwd s) p) in
      if ap \<in> set (files s) \<or> ap \<in> set (dirs s) then (s, Some EEXIST)
      else if posix_dirname ap \<notin> set (dirs s) then (s, Some ENOENT)
      else if posix_dirname ap \<in> set (locked s) then (s, Some EACCES)
      else (s\<lparr>dirs := dirs s @ [ap]\<rparr>, None))"

definition t_shutil_rmtree :: "path \<Rightarrow> fs cmd" where
  "t_shutil_rmtree p s =
     (let ap = (if take 1 p = ''/'' then p else posix_join (cwd s) p);
          gone = (\<lambda>x. x = ap \<or> under ap x) in
      if ap \<notin> set (dirs s) then (s, Some (OSError ENOENT))
      else if list_ex (\<lambda>x. gone x \<and> posix_dirname x \<in> set (locked s)) (files s @ dirs s)
        then (s, Some (OSError EACCES))
      else (s\<lparr>files := filter (\<lambda>x. \<not> gone x) (files s),
              dirs := filter (\<lambda>x. \<not> gone x) (dirs s)\<rparr>, None))"

definition logged :: "call \<Rightarrow> fs \<Rightarrow> fs" where
  "logged c s = s\<lparr>calls := c # calls s\<rparr>"

definition t_os :: "fs os" where
  "t_os = \<lparr>on_win = False, MAX_TRIES = 5, conda_prefix = ''/opt/conda'',
     sys_prefix = ''/opt/conda'', join = posix_join, dirname = posix_dirname,
     split_path = posix_split, normcase = (\<lambda>n. n), abspath = t_abspath,
     getcwd = (\<lambda>s. Inr (cwd s)), isdir = t_isdir, islink = (\<lambda>p s. False),
     lexists = t_lexists, listdir = t_listdir, walk = t_walk, unlink = t_unlink,
     rename = t_rename, rmdir = t_rmdir, makedirs = t_makedirs,
     shutil_rmtree = t_shutil_rmtree,
     check_call = (\<lambda>args s. (logged (CheckCall args) s, Some (OSError ENOENT))),
     popen_communicate = (\<lambda>args s. (logged (Popen args) s, Some (OSError ENOENT))),
     make_writable = (\<lambda>p s. (s, None)),
     recursive_make_writable = (\<lambda>p n s. (logged (RecursiveMakeWritable p n) s, None)),
     exp_backoff_fn = (\<lambda>fn p onerror n s. fn p (logged (ExpBackoffFn p n) s))\<rparr>"

section \<open>Notions the properties are stated with\<close>

text \<open>
  The ancestors of a path, nearest first, and the state after \<^verbatim>\<open>rmdir\<close> on each path of a
  list. \<open>prunable\<close> holds when each directory of the list, at its turn, is a directory with
  no entry and \<^verbatim>\<open>rmdir\<close> removes it without an error; \<open>keeps\<close> holds for a path that is
  not a directory or is a directory with an entry.
\<close>

fun chain :: "'s os \<Rightarrow> path \<Rightarrow> nat \<Rightarrow> path list" where
  "chain env p 0 = []"
| "chain env p (Suc n) = p # chain env (dirname env p) n"

fun nth_ancestor :: "'s os \<Rightarrow> path \<Rightarrow> nat \<Rightarrow> path" where
  "nth_ancestor env p 0 = p"
| "nth_ancestor env p (Suc n) = nth_ancestor env (dirname env p) n"

definition ancestors :: "'s os \<Rightarrow> path \<Rightarrow> nat \<Rightarrow> path list" where
  "ancestors env p n = chain env (dirname env p) n"

definition rmdir_all :: "'s os \<Rightarrow> path list \<Rightarrow> 's \<Rightarrow> 's" where
  "rmdir_all env ps s = fold (\<lambda>p s. fst (rmdir env p s)) ps s"

fun prunable :: "'s os \<Rightarrow> path list \<Rightarrow> 's \<Rightarrow> bool" where
  "prunable env [] s = True"
| "prunable env (a # as) s =
     (isdir env a s \<and> listdir env a s = Inr [] \<and> snd (rmdir env a s) = None
      \<and> prunable env as (fst (rmdir env a s)))"

definition keeps :: "'s os \<Rightarrow> path \<Rightarrow> 's \<Rightarrow> bool" where
  "keeps env a s =
     (if isdir env a s then (case listdir env a s of Inr (x # xs) \<Rightarrow> True | _ \<Rightarrow> False)
      else True)"

text \<open>
  What \<^verbatim>\<open>rm_rf\<close> does once the deletion step for the absolute path \<open>ap\<close> has left its state and
  its exception: the existence test of the \<^verbatim>\<open>finally\<close> block, and the pruning of the parents
  when \<^verbatim>\<open>clean_empty_parents\<close> is set.
\<close>

definition after_attempt :: "'s os \<Rightarrow> path \<Rightarrow> bool \<Rightarrow> 's \<times> exn option
    \<Rightarrow> ('s \<times> (exn + bool)) option" where
  "after_attempt env ap clean_empty_parents r =
     (if lexists env ap (fst r) then Some (fst r, Inr False)
      else (case snd r of
              Some e \<Rightarrow> Some (fst r, Inl e)
            | None \<Rightarrow>
                (if clean_empty_parents then
                   (case remove_empty_parent_paths env ap (fst r) of
                      None \<Rightarrow> None
                    | Some (s2, Some e) \<Rightarrow> Some (s2, Inl e)
                    | Some (s2, None) \<Rightarrow> Some (s2, Inr True))
                 else Some (fst r, Inr True))))"

text \<open>
  The files a sweep of \<open>root\<close> is to unlink: for each directory of the walk, in its order,
  the entries of its file list whose name matches \<^verbatim>\<open>*.trash\<close>. \<open>unlink_all\<close> unlinks each
  path of a list in turn and goes on after a failure.
\<close>

definition trash_targets :: "'s os \<Rightarrow> path \<Rightarrow> 's \<Rightarrow> path list" where
  "trash_targets env root s =
     concat (map (\<lambda>(r, dirs, files). map (join env r) (filter (fnmatch_trash env) files))
                 (walk env root True s))"

definition unlink_all :: "'s os \<Rightarrow> path list \<Rightarrow> 's \<Rightarrow> 's" where
  "unlink_all env ps s = fold (\<lambda>p s. fst (unlink env p s)) ps s"

definition not_trash :: "fs \<Rightarrow> path list \<times> path list" where
  "not_trash s = (filter (\<lambda>f. \<not> endswith f ''.trash'') (files s), dirs s)"

text \<open>
  The second and third step of \<^verbatim>\<open>backoff_rmdir\<close> as the specification numbers them: the
  bottom-up walk and the final removal of the directory. \<open>backoff_rmdir_claimed\<close> is
  \<^verbatim>\<open>backoff_rmdir\<close> with the first tier the specification describes:
  \<^verbatim>\<open>recursive_make_writable(path)\<close>, then the tree deletion under \<^verbatim>\<open>exp_backoff_fn\<close> with the
  \<^verbatim>\<open>onerror\<close> callback and \<^verbatim>\<open>max_tries\<close>, every error passed over.
\<close>

definition per_entry_walk :: "'s os \<Rightarrow> path \<Rightarrow> nat \<Rightarrow> 's cmd" where
  "per_entry_walk env dirpath max_tries s =
     and_then (for_each (walk_body env max_tries) (walk env dirpath False s))
              (inner_rmdir env max_tries dirpath) s"

definition backoff_rmdir_claimed :: "'s os \<Rightarrow> path \<Rightarrow> nat \<Rightarrow> 's cmd" where
  "backoff_rmdir_claimed env dirpath max_tries s =
     (if \<not> isdir env dirpath s then (s, None)
      else per_entry_walk env dirpath max_tries
             (fst (and_then (recursive_make_writable env dirpath (MAX_TRIES env))
                     (exp_backoff_fn env (rmtree env) dirpath (Some (retry env max_tries))
                        max_tries) s)))"

section \<open>File systems of the examples\<close>

definition fs_pruning :: fs where
  "fs_pruning = \<lparr>files = [''/ro/d/f''], dirs = [''/'', ''/ro'', ''/ro/d''],
     locked = [''/ro''], busy = [], racing = [], cwd = ''/'', calls = []\<rparr>"

definition fs_locked :: fs where
  "fs_locked = \<lparr>files = [''/ro/f''], dirs = [''/'', ''/ro''], locked = [''/ro''],
     busy = [], racing = [], cwd = ''/'', calls = []\<rparr>"

definition fs_racing :: fs where
  "fs_racing = \<lparr>files = [''/w/g''], dirs = [''/'', ''/w''], locked = [],
     busy = [], racing = [''/w/g''], cwd = ''/'', calls = []\<rparr>"

definition fs_busy :: fs where
  "fs_busy = \<lparr>files = [''/w/g''], dirs = [''/'', ''/w''], locked = [],
     busy = [''/w/g''], racing = [], cwd = ''/'', calls = []\<rparr>"

definition fs_hollow :: fs where
  "fs_hollow = \<lparr>files = [], dirs = [''/'', ''/ro'', ''/ro/e''], locked = [''/ro''],
     busy = [], racing = [], cwd = ''/'', calls = []\<rparr>"

definition fs_absent :: fs where
  "fs_absent = \<lparr>files = [''/w/keep''], dirs = [''/'', ''/w'', ''/w/e''], locked = [],
     busy = [], racing = [], cwd = ''/'', calls = []\<rparr>"

definition fs_tree :: fs where
  "fs_tree = \<lparr>files = [''/a/b/c/target'', ''/a/other''],
     dirs = [''/'', ''/a'', ''/a/b'', ''/a/b/c''],
     locked = [], busy = [], racing = [], cwd = ''/'', calls = []\<rparr>"

definition fs_dir :: fs where
  "fs_dir = \<lparr>files = [''/w/d/f''], dirs = [''/'', ''/w'', ''/w/d''],
     locked = [], busy = [], racing = [], cwd = ''/'', calls = []\<rparr>"

definition fs_trash :: fs where
  "fs_trash = \<lparr>files = [''/r/a.trash'', ''/r/keep.txt'', ''/r/lk/x.trash'',
       ''/r/sub/deep/b.trash'', ''/r/sub/deep/c.py''],
     dirs = [''/'', ''/r'', ''/r/lk'', ''/r/sub'', ''/r/sub/deep''],
     locked = [''/r/lk''], busy = [], racing = [], cwd = ''/'', calls = []\<rparr>"

declare remove_empty_loop.simps [code]

section \<open>Evaluation of the examples\<close>

lemmas t_defs = t_os_def t_abspath_def t_isdir_def t_lexists_def t_listdir_def t_walk_def
  t_unlink_def t_rename_def t_rmdir_def t_makedirs_def t_shutil_rmtree_def settle_def
  logged_def children_def under_def moved_def posix_dirname_def posix_basename_def
  posix_split_def posix_join_def

lemma try_locked:
  "rm_rf_try t_os ''/ro/f'' fs_locked = (fs_locked, ''/ro/f'', Some (OSError EACCES))"
  by code_simp

lemma try_pruning:
  "rm_rf_try t_os ''/ro/d/f'' fs_pruning = (fs_pruning\<lparr>files := []\<rparr>, ''/ro/d/f'', None)"
  by code_simp

lemma try_racing:
  "rm_rf_try t_os ''/w/g'' fs_racing =
     (fs_racing\<lparr>files := [], racing := []\<rparr>, ''/w/g'', Some (OSError ENOENT))"
  by code_simp

lemma pruning_raises:
  "remove_empty_parent_paths t_os ''/ro/d/f'' (fs_pruning\<lparr>files := []\<rparr>) =
     Some (fs_pruning\<lparr>files := []\<rparr>, Some (OSError EACCES))"
  by code_simp

lemma exists_locked: "lexists t_os ''/ro/f'' fs_locked"
  by (simp add: t_os_def t_lexists_def fs_locked_def)

lemma absent_pruning: "\<not> lexists t_os ''/ro/d/f'' (fs_pruning\<lparr>files := []\<rparr>)"
  by (simp add: t_os_def t_lexists_def fs_pruning_def)

lemma exists_racing: "lexists t_os ''/w/g'' fs_racing"
  by (simp add: t_os_def t_lexists_def fs_racing_def)

lemma absent_racing: "\<not> lexists t_os ''/w/g'' (fs_racing\<lparr>files := [], racing := []\<rparr>)"
  by (simp add: t_os_def t_lexists_def fs_racing_def)

lemma run_hollow:
  "rm_rf t_os ''/ro/e/x'' 5 True True fs_hollow = Some (fs_hollow, Inl (OSError EACCES))"
  by code_simp

lemma after_dir:
  "after_attempt t_os ''/w/d'' True (backoff_rmdir t_os ''/w/d'' 5 fs_dir) =
     Some (fst (backoff_rmdir t_os ''/w/d'' 5 fs_dir), Inr False)"
  by code_simp

lemma after_file:
  "after_attempt t_os ''/w/g'' True (unlink_or_rename_to_trash t_os ''/w/g'' fs_busy) =
     Some (fs_busy\<lparr>files := [''/w/g.trash''], busy := [''/w/g.trash'']\<rparr>, Inr True)"
  by code_simp

lemma after_absent:
  "after_attempt t_os ''/w/e/x'' True (fs_absent, None) =
     Some (fs_absent\<lparr>dirs := [''/'', ''/w'']\<rparr>, Inr True)"
  by code_simp

lemma try_busy:
  "rm_rf_try t_os ''/w/g'' fs_busy =
     (fs_busy\<lparr>files := [''/w/g.trash''], busy := [''/w/g.trash'']\<rparr>, ''/w/g'', None)"
  by code_simp

lemma absent_busy:
  "\<not> lexists t_os ''/w/g'' (fs_busy\<lparr>files := [''/w/g.trash''], busy := [''/w/g.trash'']\<rparr>)"
  by (simp add: t_os_def t_lexists_def fs_busy_def)

lemma run_claimed:
  "calls (fst (backoff_rmdir_claimed t_os ''/w/d'' 5 fs_dir)) =
     [CheckCall [''rsync'', ''-a'', ''--delete'', ''/.empty/'', ''/w/d/''],
      ExpBackoffFn ''/w/d'' 5, RecursiveMakeWritable ''/w/d'' 5,
      CheckCall [''rsync'', ''-a'', ''--delete'', ''/.empty/'', ''/w/d/''],
      ExpBackoffFn ''/w/d'' 5, RecursiveMakeWritable ''/w/d'' 5]"
  by code_simp

lemma run_backoff:
  "calls (fst (backoff_rmdir t_os ''/w/d'' 5 fs_dir)) =
     [CheckCall [''rsync'', ''-a'', ''--delete'', ''/.empty/'', ''/w/d/''],
      ExpBackoffFn ''/w/d'' 5, RecursiveMakeWritable ''/w/d'' 5,
      CheckCall [''rsync'', ''-a'', ''--delete'', ''/.empty/'', ''/w/d/'']]"
  by code_simp

lemma run_dir:
  "backoff_rmdir t_os ''/w/d'' 5 fs_dir =
     (fs_dir\<lparr>files := [], dirs := [''/'', ''/w'', ''/w/d'', ''/.empty''],
        calls := [CheckCall [''rsync'', ''-a'', ''--delete'', ''/.empty/'', ''/w/d/''],
          ExpBackoffFn ''/w/d'' 5, RecursiveMakeWritable ''/w/d'' 5,
          CheckCall [''rsync'', ''-a'', ''--delete'', ''/.empty/'', ''/w/d/'']]\<rparr>, None)"
  by code_simp

lemma run_busy:
  "unlink_or_rename_to_trash t_os ''/w/g'' fs_busy =
     (fs_busy\<lparr>files := [''/w/g.trash''], busy := [''/w/g.trash'']\<rparr>, None)"
  by code_simp

section \<open>The result of \<open>rm_rf\<close>\<close>




text \<open>
  C2, amended. An exception of the deletion step is dropped, and \<^verbatim>\<open>rm_rf\<close> returns \<^verbatim>\<open>False\<close>,
  when the path still exists after the step. When the path is absent after the step, the
  exception of the step goes to the caller; so does an exception of
  \<^verbatim>\<open>remove_empty_parent_paths\<close>, which runs outside the \<^verbatim>\<open>try\<close> block. (The existence tests
  are total here, so their own errors are outside the statement.)
\<close>

theorem rm_rf_absorbs_while_present:
  assumes "rm_rf_try env p s = (s1, p1, x)"
  shows "(lexists env p1 s1 \<and> x = Some e \<longrightarrow> rm_rf env p mr t c s = Some (s1, Inr False))
     \<and> (\<not> lexists env p1 s1 \<and> x = Some e \<longrightarrow> rm_rf env p mr t c s = Some (s1, Inl e))
     \<and> (\<not> lexists env p1 s1 \<and> x = None \<and> c
          \<and> remove_empty_parent_paths env p1 s1 = Some (s2, Some e')
        \<longrightarrow> rm_rf env p mr t c s = Some (s2, Inl e'))"
  using assms by (simp add: rm_rf_def)

theorem rm_rf_absorbs_while_present_witness:
  "lexists t_os ''/ro/f'' fs_locked
   \<and> rm_rf t_os ''/ro/f'' 5 True True fs_locked = Some (fs_locked, Inr False)
   \<and> \<not> lexists t_os ''/w/g'' (fs_racing\<lparr>files := [], racing := []\<rparr>)
   \<and> rm_rf t_os ''/w/g'' 5 True True fs_racing
       = Some (fs_racing\<lparr>files := [], racing := []\<rparr>, Inl (OSError ENOENT))
   \<and> rm_rf t_os ''/ro/d/f'' 5 True True fs_pruning
       = Some (fs_pruning\<lparr>files := []\<rparr>, Inl (OSError EACCES))"
  using rm_rf_absorbs_while_present [OF try_locked, of "OSError EACCES" 5 True True]
    rm_rf_absorbs_while_present [OF try_racing, of "OSError ENOENT" 5 True True]
    rm_rf_absorbs_while_present [OF try_pruning, of _ 5 True True]
    pruning_raises
  by (simp add: exists_locked absent_racing absent_pruning)

text \<open>
  C2 as stated fails: \<^verbatim>\<open>/w/g\<close> exists when \<^verbatim>\<open>rm_rf\<close> classifies it and another process
  removes it before the \<^verbatim>\<open>unlink\<close>; \<^verbatim>\<open>unlink\<close> and then \<^verbatim>\<open>rename\<close> raise \<^verbatim>\<open>ENOENT\<close>, the path is
  absent in the \<^verbatim>\<open>finally\<close> block, and the \<^verbatim>\<open>OSError\<close> reaches the caller. Without any
  other process: \<^verbatim>\<open>/ro/e/x\<close> does not exist, and with \<^verbatim>\<open>clean_empty_parents\<close> set the \<^verbatim>\<open>rmdir\<close>
  of the empty \<^verbatim>\<open>/ro/e\<close> inside the locked \<^verbatim>\<open>/ro\<close> raises \<^verbatim>\<open>EACCES\<close> to the caller.
\<close>

theorem rm_rf_never_raises_counterexample:
  "lexists t_os ''/w/g'' fs_racing
   \<and> map_option snd (rm_rf t_os ''/w/g'' 5 True False fs_racing) = Some (Inl (OSError ENOENT))
   \<and> map_option snd (rm_rf t_os ''/ro/e/x'' 5 True True fs_hollow) = Some (Inl (OSError EACCES))"
proof (intro conjI)
  show "lexists t_os ''/w/g'' fs_racing"
    by (rule exists_racing)
  show "map_option snd (rm_rf t_os ''/w/g'' 5 True False fs_racing)
      = Some (Inl (OSError ENOENT))"
    by (simp add: rm_rf_def try_racing absent_racing)
  show "map_option snd (rm_rf t_os ''/ro/e/x'' 5 True True fs_hollow)
      = Some (Inl (OSError EACCES))"
    by (simp add: run_hollow)
qed

section \<open>The first tier of \<open>backoff_rmdir\<close>\<close>

text \<open>
  C3, amended. For a directory, the first tier of \<^verbatim>\<open>backoff_rmdir\<close> is the single call
  \<^verbatim>\<open>rmtree(dirpath)\<close>: no \<^verbatim>\<open>recursive_make_writable\<close> before it, no \<^verbatim>\<open>exp_backoff_fn\<close> around it,
  no \<^verbatim>\<open>onerror\<close> callback and no use of \<^verbatim>\<open>max_tries\<close>, so the state it leaves is the same
  whatever those two helpers are. Whatever it raises is passed over: the bottom-up walk
  and the final removal run from the state it left, and only they decide the outcome.
\<close>

theorem backoff_rmdir_first_tier:
  assumes "isdir env dirpath s"
  shows "backoff_rmdir env dirpath max_tries s
           = per_entry_walk env dirpath max_tries (fst (rmtree env dirpath s))
       \<and> rmtree (env\<lparr>recursive_make_writable := f, exp_backoff_fn := g\<rparr>) dirpath s
           = rmtree env dirpath s"
proof
  show "backoff_rmdir env dirpath max_tries s
          = per_entry_walk env dirpath max_tries (fst (rmtree env dirpath s))"
    using assms by (simp add: backoff_rmdir_def per_entry_walk_def Let_def)
  show "rmtree (env\<lparr>recursive_make_writable := f, exp_backoff_fn := g\<rparr>) dirpath s
          = rmtree env dirpath s"
    by (simp add: rmtree_def Let_def cong: sum.case_cong)
qed

theorem backoff_rmdir_first_tier_witness:
  "isdir t_os ''/w/d'' fs_dir
   \<and> snd (rmtree t_os ''/w/d'' fs_dir) = Some (OSError ENOENT)
   \<and> backoff_rmdir t_os ''/w/d'' 5 fs_dir
       = per_entry_walk t_os ''/w/d'' 5 (fst (rmtree t_os ''/w/d'' fs_dir))
   \<and> snd (backoff_rmdir t_os ''/w/d'' 5 fs_dir) = None"
proof -
  have d: "isdir t_os ''/w/d'' fs_dir"
    by (simp add: t_os_def t_isdir_def fs_dir_def)
  have r: "snd (rmtree t_os ''/w/d'' fs_dir) = Some (OSError ENOENT)"
    by code_simp
  have n: "snd (backoff_rmdir t_os ''/w/d'' 5 fs_dir) = None"
    by code_simp
  from backoff_rmdir_first_tier [OF d, of 5] d r n show ?thesis
    by simp
qed

text \<open>
  C3 as stated fails: on the directory \<^verbatim>\<open>/w/d\<close> the first helper the code calls is the bulk
  deletion itself (the oldest entry of the log), and the log differs from the one of the
  first tier the specification describes, which starts with \<^verbatim>\<open>recursive_make_writable\<close>
  and \<^verbatim>\<open>exp_backoff_fn\<close>.
\<close>

theorem backoff_rmdir_first_tier_counterexample:
  "last (calls (fst (backoff_rmdir t_os ''/w/d'' 5 fs_dir)))
     = CheckCall [''rsync'', ''-a'', ''--delete'', ''/.empty/'', ''/w/d/'']
   \<and> last (calls (fst (backoff_rmdir_claimed t_os ''/w/d'' 5 fs_dir)))
     = RecursiveMakeWritable ''/w/d'' 5
   \<and> backoff_rmdir t_os ''/w/d'' 5 fs_dir \<noteq> backoff_rmdir_claimed t_os ''/w/d'' 5 fs_dir"
proof -
  have "calls (fst (backoff_rmdir t_os ''/w/d'' 5 fs_dir))
      \<noteq> calls (fst (backoff_rmdir_claimed t_os ''/w/d'' 5 fs_dir))"
    by (simp add: run_backoff run_claimed)
  then have "backoff_rmdir t_os ''/w/d'' 5 fs_dir \<noteq> backoff_rmdir_claimed t_os ''/w/d'' 5 fs_dir"
    by auto
  then show ?thesis
    by (simp add: run_backoff run_claimed)
qed

section \<open>\<open>unlink_or_rename_to_trash\<close> on a missing path\<close>

text \<open>
  C4 does not hold of the code. On a platform other than Windows, for the path \<^verbatim>\<open>/w/h\<close>
  that does not exist, \<^verbatim>\<open>unlink\<close> raises \<^verbatim>\<open>ENOENT\<close>, the handler goes on to
  \<^verbatim>\<open>rename(path, path + ".trash")\<close>, and the \<^verbatim>\<open>ENOENT\<close> of that call reaches the caller.
\<close>

theorem unlink_or_rename_missing_raises:
  "\<not> lexists t_os ''/w/h'' fs_busy
   \<and> unlink_or_rename_to_trash t_os ''/w/h'' fs_busy = (fs_busy, Some (OSError ENOENT))"
  by code_simp

section \<open>Regular files\<close>




section \<open>Classification and the unused parameters\<close>

text \<open>
  C6. \<^verbatim>\<open>rm_rf\<close> takes the absolute form \<open>ap\<close> of its argument and classifies that. For every
  value of the options, the whole run of \<^verbatim>\<open>rm_rf\<close> is the rest of the function (the existence
  test of the \<^verbatim>\<open>finally\<close> block, then the pruning of the parents when \<^verbatim>\<open>clean_empty_parents\<close>
  is set) after one deletion step: \<^verbatim>\<open>backoff_rmdir(ap)\<close> (with the default \<^verbatim>\<open>MAX_TRIES\<close>) for a
  directory that is not a link; otherwise \<^verbatim>\<open>unlink_or_rename_to_trash(ap)\<close> for a path that
  exists (file, link, broken link); otherwise no deletion step at all: the \<^verbatim>\<open>try\<close> block
  leaves the state unchanged and raises nothing, \<^verbatim>\<open>rm_rf\<close> without \<^verbatim>\<open>clean_empty_parents\<close>
  returns \<^verbatim>\<open>True\<close> in the unchanged state, and with \<^verbatim>\<open>clean_empty_parents\<close> its run is the one
  of \<^verbatim>\<open>remove_empty_parent_paths\<close> on the unchanged state.
\<close>

theorem rm_rf_dispatch:
  assumes "abspath env p s = Inr ap"
  shows "(isdir env ap s \<and> \<not> islink env ap s \<longrightarrow>
            rm_rf_try env p s = (fst (backoff_rmdir env ap (MAX_TRIES env) s), ap,
                                 snd (backoff_rmdir env ap (MAX_TRIES env) s))
            \<and> rm_rf env p mr t c s
                = after_attempt env ap c (backoff_rmdir env ap (MAX_TRIES env) s))
       \<and> (\<not> (isdir env ap s \<and> \<not> islink env ap s) \<and> lexists env ap s \<longrightarrow>
            rm_rf_try env p s = (fst (unlink_or_rename_to_trash env ap s), ap,
                                 snd (unlink_or_rename_to_trash env ap s))
            \<and> rm_rf env p mr t c s
                = after_attempt env ap c (unlink_or_rename_to_trash env ap s))
       \<and> (\<not> (isdir env ap s \<and> \<not> islink env ap s) \<and> \<not> lexists env ap s \<longrightarrow>
            rm_rf_try env p s = (s, ap, None)
            \<and> rm_rf env p mr t c s = after_attempt env ap c (s, None)
            \<and> rm_rf env p mr t False s = Some (s, Inr True)
            \<and> rm_rf env p mr t True s =
                (case remove_empty_parent_paths env ap s of
                   None \<Rightarrow> None
                 | Some (s2, Some e) \<Rightarrow> Some (s2, Inl e)
                 | Some (s2, None) \<Rightarrow> Some (s2, Inr True)))"
proof -
  have after: "rm_rf env p mr t c s = after_attempt env p1 c (s1, x)"
    if "rm_rf_try env p s = (s1, p1, x)" for s1 p1 x c
    using that by (simp add: rm_rf_def after_attempt_def cong: option.case_cong)
  show ?thesis
  proof (intro conjI impI)
    assume d: "isdir env ap s \<and> \<not> islink env ap s"
    with assms show b: "rm_rf_try env p s = (fst (backoff_rmdir env ap (MAX_TRIES env) s), ap,
        snd (backoff_rmdir env ap (MAX_TRIES env) s))"
      by (simp add: rm_rf_try_def case_prod_beta)
    from after [OF b] show "rm_rf env p mr t c s
        = after_attempt env ap c (backoff_rmdir env ap (MAX_TRIES env) s)"
      by simp
  next
    assume f: "\<not> (isdir env ap s \<and> \<not> islink env ap s) \<and> lexists env ap s"
    with assms show u: "rm_rf_try env p s = (fst (unlink_or_rename_to_trash env ap s), ap,
        snd (unlink_or_rename_to_trash env ap s))"
      by (auto simp: rm_rf_try_def case_prod_beta)
    from after [OF u] show "rm_rf env p mr t c s
        = after_attempt env ap c (unlink_or_rename_to_trash env ap s)"
      by simp
  next
    assume n: "\<not> (isdir env ap s \<and> \<not> islink env ap s) \<and> \<not> lexists env ap s"
    with assms show e: "rm_rf_try env p s = (s, ap, None)"
      by (auto simp: rm_rf_try_def)
    from after [OF e] show "rm_rf env p mr t c s = after_attempt env ap c (s, None)" .
    from n e show "rm_rf env p mr t False s = Some (s, Inr True)"
      by (simp add: rm_rf_def)
    from n e show "rm_rf env p mr t True s =
        (case remove_empty_parent_paths env ap s of
           None \<Rightarrow> None
         | Some (s2, Some e) \<Rightarrow> Some (s2, Inl e)
         | Some (s2, None) \<Rightarrow> Some (s2, Inr True))"
      by (simp add: rm_rf_def)
  qed
qed

theorem rm_rf_dispatch_witness:
  "rm_rf_try t_os ''w/d'' fs_dir = (fst (backoff_rmdir t_os ''/w/d'' 5 fs_dir), ''/w/d'',
                                    snd (backoff_rmdir t_os ''/w/d'' 5 fs_dir))
   \<and> rm_rf t_os ''w/d'' 5 True True fs_dir
       = Some (fst (backoff_rmdir t_os ''/w/d'' 5 fs_dir), Inr False)
   \<and> rm_rf_try t_os ''w/g'' fs_busy = (fst (unlink_or_rename_to_trash t_os ''/w/g'' fs_busy),
                                    ''/w/g'', snd (unlink_or_rename_to_trash t_os ''/w/g'' fs_busy))
   \<and> rm_rf t_os ''w/g'' 5 True True fs_busy
       = Some (fs_busy\<lparr>files := [''/w/g.trash''], busy := [''/w/g.trash'']\<rparr>, Inr True)
   \<and> rm_rf_try t_os ''w/nothing'' fs_dir = (fs_dir, ''/w/nothing'', None)
   \<and> rm_rf t_os ''w/nothing'' 5 True False fs_dir = Some (fs_dir, Inr True)
   \<and> rm_rf_try t_os ''w/e/x'' fs_absent = (fs_absent, ''/w/e/x'', None)
   \<and> rm_rf t_os ''w/e/x'' 5 True True fs_absent
       = Some (fs_absent\<lparr>dirs := [''/'', ''/w'']\<rparr>, Inr True)"
proof -
  have a: "abspath t_os ''w/d'' fs_dir = Inr ''/w/d''"
    "abspath t_os ''w/g'' fs_busy = Inr ''/w/g''"
    "abspath t_os ''w/nothing'' fs_dir = Inr ''/w/nothing''"
    "abspath t_os ''w/e/x'' fs_absent = Inr ''/w/e/x''"
    by (simp_all add: t_os_def t_abspath_def posix_join_def fs_dir_def fs_busy_def
        fs_absent_def)
  have c: "isdir t_os ''/w/d'' fs_dir" "\<not> islink t_os ''/w/d'' fs_dir"
    "\<not> isdir t_os ''/w/g'' fs_busy" "lexists t_os ''/w/g'' fs_busy"
    "\<not> isdir t_os ''/w/nothing'' fs_dir" "\<not> lexists t_os ''/w/nothing'' fs_dir"
    "\<not> isdir t_os ''/w/e/x'' fs_absent" "\<not> lexists t_os ''/w/e/x'' fs_absent"
    by (simp_all add: t_os_def t_isdir_def t_lexists_def fs_dir_def fs_busy_def fs_absent_def)
  have m: "MAX_TRIES t_os = 5"
    by (simp add: t_os_def)
  have d: "rm_rf_try t_os ''w/d'' fs_dir = (fst (backoff_rmdir t_os ''/w/d'' 5 fs_dir), ''/w/d'',
                                    snd (backoff_rmdir t_os ''/w/d'' 5 fs_dir))"
    "rm_rf t_os ''w/d'' 5 True True fs_dir
       = after_attempt t_os ''/w/d'' True (backoff_rmdir t_os ''/w/d'' 5 fs_dir)"
    using rm_rf_dispatch [OF a(1), where mr = 5 and t = True and c = True, unfolded m] c
    by blast+
  have f: "rm_rf_try t_os ''w/g'' fs_busy = (fst (unlink_or_rename_to_trash t_os ''/w/g'' fs_busy),
                                    ''/w/g'', snd (unlink_or_rename_to_trash t_os ''/w/g'' fs_busy))"
    "rm_rf t_os ''w/g'' 5 True True fs_busy
       = after_attempt t_os ''/w/g'' True (unlink_or_rename_to_trash t_os ''/w/g'' fs_busy)"
    using rm_rf_dispatch [OF a(2), where mr = 5 and t = True and c = True] c
    by blast+
  have n: "rm_rf_try t_os ''w/nothing'' fs_dir = (fs_dir, ''/w/nothing'', None)"
    "rm_rf t_os ''w/nothing'' 5 True False fs_dir = Some (fs_dir, Inr True)"
    using rm_rf_dispatch [OF a(3), where mr = 5 and t = True and c = False] c
    by blast+
  have e: "rm_rf_try t_os ''w/e/x'' fs_absent = (fs_absent, ''/w/e/x'', None)"
    "rm_rf t_os ''w/e/x'' 5 True True fs_absent
       = after_attempt t_os ''/w/e/x'' True (fs_absent, None)"
    using rm_rf_dispatch [OF a(4), where mr = 5 and t = True and c = True] c
    by blast+
  show ?thesis
    by (simp add: d f n e after_dir after_file after_absent)
qed

text \<open>
  C9. The value of \<^verbatim>\<open>trash\<close> changes nothing: the two runs of \<^verbatim>\<open>rm_rf\<close> that differ in it
  only are equal, state and result. With \<^verbatim>\<open>trash=False\<close> too, when \<^verbatim>\<open>unlink\<close> raises on a
  file (outside Windows), the rename to \<^verbatim>\<open>path + ".trash"\<close> is made and decides the outcome.
\<close>

theorem rm_rf_trash_unused:
  "rm_rf env p mr True c s = rm_rf env p mr False c s
   \<and> (abspath env p s = Inr ap \<and> \<not> on_win env
        \<and> \<not> (isdir env ap s \<and> \<not> islink env ap s) \<and> lexists env ap s
        \<and> make_writable env ap s = (s1, None) \<and> unlink env ap s1 = (s2, Some e)
        \<and> rename env ap (ap @ ''.trash'') s2 = (s3, r)
      \<longrightarrow> rm_rf env p mr False False s =
            Some (s3, if lexists env ap s3 then Inr False
                      else (case r of None \<Rightarrow> Inr True | Some e' \<Rightarrow> Inl (OSError e'))))"
  by (auto simp: rm_rf_def rm_rf_try_def unlink_or_rename_to_trash_def and_then_def os_call_def
      split: option.splits)

theorem rm_rf_trash_unused_witness:
  "rm_rf t_os ''/w/g'' 5 True False fs_busy = rm_rf t_os ''/w/g'' 5 False False fs_busy
   \<and> rm_rf t_os ''/w/g'' 5 False False fs_busy
       = Some (fs_busy\<lparr>files := [''/w/g.trash''], busy := [''/w/g.trash'']\<rparr>, Inr True)"
proof -
  have h: "abspath t_os ''/w/g'' fs_busy = Inr ''/w/g''" "\<not> on_win t_os"
    "\<not> (isdir t_os ''/w/g'' fs_busy \<and> \<not> islink t_os ''/w/g'' fs_busy)"
    "lexists t_os ''/w/g'' fs_busy"
    "make_writable t_os ''/w/g'' fs_busy = (fs_busy, None)"
    "unlink t_os ''/w/g'' fs_busy = (fs_busy, Some EBUSY)"
    "rename t_os ''/w/g'' (''/w/g'' @ ''.trash'') fs_busy
       = (fs_busy\<lparr>files := [''/w/g.trash''], busy := [''/w/g.trash'']\<rparr>, None)"
    by (simp_all add: t_defs fs_busy_def)
  from rm_rf_trash_unused [of t_os "''/w/g''" 5 False fs_busy "''/w/g''" fs_busy fs_busy EBUSY
      "fs_busy\<lparr>files := [''/w/g.trash''], busy := [''/w/g.trash'']\<rparr>" None] h absent_busy
  show ?thesis by simp
qed

text \<open>
  C10. The value of \<^verbatim>\<open>max_retries\<close> changes nothing: the two runs of \<^verbatim>\<open>rm_rf\<close> that differ in
  it only are equal, state and result. For a directory \<^verbatim>\<open>rm_rf\<close> calls \<^verbatim>\<open>backoff_rmdir\<close> with
  the default \<^verbatim>\<open>MAX_TRIES\<close>, whatever \<^verbatim>\<open>max_retries\<close> is.
\<close>

theorem rm_rf_max_retries_unused:
  "rm_rf env p m1 t c s = rm_rf env p m2 t c s
   \<and> (abspath env p s = Inr ap \<and> isdir env ap s \<and> \<not> islink env ap s
        \<and> backoff_rmdir env ap (MAX_TRIES env) s = (s', x)
      \<longrightarrow> rm_rf env p m1 t False s =
            Some (s', if lexists env ap s' then Inr False
                      else (case x of None \<Rightarrow> Inr True | Some e \<Rightarrow> Inl e)))"
  by (auto simp: rm_rf_def rm_rf_try_def split: option.splits)

theorem rm_rf_max_retries_unused_witness:
  "rm_rf t_os ''/w/d'' 0 True False fs_dir = rm_rf t_os ''/w/d'' 7 True False fs_dir
   \<and> rm_rf t_os ''/w/d'' 0 True False fs_dir = Some (fst (backoff_rmdir t_os ''/w/d'' 5 fs_dir),
        Inr False)
   \<and> ExpBackoffFn ''/w/d'' 5 \<in> set (calls (fst (backoff_rmdir t_os ''/w/d'' 5 fs_dir)))"
proof -
  have h: "abspath t_os ''/w/d'' fs_dir = Inr ''/w/d''" "isdir t_os ''/w/d'' fs_dir"
    "\<not> islink t_os ''/w/d'' fs_dir" "MAX_TRIES t_os = 5"
    by (simp_all add: t_os_def t_abspath_def t_isdir_def fs_dir_def)
  have l: "lexists t_os ''/w/d'' (fst (backoff_rmdir t_os ''/w/d'' 5 fs_dir))"
    by (simp add: run_dir) (simp add: t_os_def t_lexists_def fs_dir_def)
  from rm_rf_max_retries_unused [of t_os "''/w/d''" 0 True False fs_dir 7 "''/w/d''"
      "fst (backoff_rmdir t_os ''/w/d'' 5 fs_dir)" "snd (backoff_rmdir t_os ''/w/d'' 5 fs_dir)"]
    h l
  show ?thesis by (auto simp: run_backoff)
qed

section \<open>The sweep of trashed files\<close>

lemma delete_trash_files_eq:
  "delete_trash_files env root names s =
     unlink_all env (map (join env root) (filter (fnmatch_trash env) names)) s"
  unfolding delete_trash_files_def unlink_all_def
  by (induction names arbitrary: s) simp_all

lemma unlink_all_append:
  "unlink_all env (ps @ qs) s = unlink_all env qs (unlink_all env ps s)"
  by (simp add: unlink_all_def)

lemma fold_delete_trash_files:
  "fold (\<lambda>(root, dirs, files) s. delete_trash_files env root files s) ws s =
   unlink_all env (concat (map (\<lambda>(r, dirs, files).
       map (join env r) (filter (fnmatch_trash env) files)) ws)) s"
proof (induction ws arbitrary: s)
  case Nil
  then show ?case by (simp add: unlink_all_def)
next
  case (Cons w ws)
  obtain r ds fs where w: "w = (r, ds, fs)" by (cases w)
  have "fold (\<lambda>(root, dirs, files) s. delete_trash_files env root files s) (w # ws) s =
        fold (\<lambda>(root, dirs, files) s. delete_trash_files env root files s) ws
          (delete_trash_files env r fs s)"
    by (simp add: w)
  also have "\<dots> = unlink_all env (concat (map (\<lambda>(r, dirs, files).
        map (join env r) (filter (fnmatch_trash env) files)) ws)) (delete_trash_files env r fs s)"
    by (rule Cons.IH)
  finally show ?case
    by (simp add: w delete_trash_files_eq unlink_all_append)
qed

lemma unlink_all_frame:
  "(\<And>p s'. p \<in> set ps \<Longrightarrow> obs (fst (unlink env p s')) = obs s')
     \<Longrightarrow> obs (unlink_all env ps s) = obs s"
  unfolding unlink_all_def
  by (induction ps arbitrary: s) simp_all

lemma filter_removeAll_other: "\<not> P x \<Longrightarrow> filter P (removeAll x xs) = filter P xs"
  by (induction xs) auto

lemma t_unlink_keeps_not_trash:
  "endswith p ''.trash'' \<Longrightarrow> not_trash (fst (t_unlink p s)) = not_trash s"
  by (simp add: t_unlink_def settle_def not_trash_def Let_def filter_removeAll_other)

lemma targets_trash:
  "trash_targets t_os ''/r'' fs_trash = [''/r/a.trash'', ''/r/lk/x.trash'', ''/r/sub/deep/b.trash'']"
  by code_simp

lemma sweep_trash:
  "unlink_all t_os [''/r/a.trash'', ''/r/lk/x.trash'', ''/r/sub/deep/b.trash''] fs_trash =
     fs_trash\<lparr>files := [''/r/keep.txt'', ''/r/lk/x.trash'', ''/r/sub/deep/c.py'']\<rparr>"
  by code_simp

text \<open>
  C7. \<^verbatim>\<open>delete_trash(root)\<close> unlinks, in the order of the walk, exactly the entries of the
  file lists of the walk whose name matches \<^verbatim>\<open>*.trash\<close>, and goes on after an \<^verbatim>\<open>unlink\<close> that
  raised: its final state is the one of attempting each of these unlinks in turn. Nothing
  else is touched: whatever the \<^verbatim>\<open>unlink\<close> of a matching file leaves unchanged is unchanged
  by the sweep.
\<close>

theorem delete_trash_sweep:
  assumes "root \<noteq> []"
  shows "delete_trash env (Some root) s = unlink_all env (trash_targets env root s) s
     \<and> ((\<forall>p \<in> set (trash_targets env root s). \<forall>s'. obs (fst (unlink env p s')) = obs s')
          \<longrightarrow> obs (delete_trash env (Some root) s) = obs s)"
proof -
  have eq: "delete_trash env (Some root) s = unlink_all env (trash_targets env root s) s"
    using assms by (simp add: delete_trash_def trash_targets_def fold_delete_trash_files)
  show ?thesis
  proof (intro conjI impI)
    show "delete_trash env (Some root) s = unlink_all env (trash_targets env root s) s"
      by (rule eq)
  next
    assume "\<forall>p \<in> set (trash_targets env root s). \<forall>s'. obs (fst (unlink env p s')) = obs s'"
    then show "obs (delete_trash env (Some root) s) = obs s"
      unfolding eq by (intro unlink_all_frame) blast
  qed
qed

theorem delete_trash_sweep_witness:
  "delete_trash t_os (Some ''/r'') fs_trash
     = fs_trash\<lparr>files := [''/r/keep.txt'', ''/r/lk/x.trash'', ''/r/sub/deep/c.py'']\<rparr>
   \<and> snd (unlink t_os ''/r/lk/x.trash'' (fs_trash\<lparr>files := [''/r/keep.txt'', ''/r/lk/x.trash'',
         ''/r/sub/deep/b.trash'', ''/r/sub/deep/c.py'']\<rparr>)) = Some EACCES
   \<and> not_trash (delete_trash t_os (Some ''/r'') fs_trash) = not_trash fs_trash"
proof -
  have ne: "''/r'' \<noteq> []" by simp
  have u: "unlink t_os = t_unlink" by (simp add: t_os_def)
  have fr: "\<forall>p \<in> set (trash_targets t_os ''/r'' fs_trash).
      \<forall>s'. not_trash (fst (unlink t_os p s')) = not_trash s'"
    by (simp add: targets_trash u t_unlink_keeps_not_trash endswith_def)
  have e: "snd (unlink t_os ''/r/lk/x.trash'' (fs_trash\<lparr>files := [''/r/keep.txt'',
      ''/r/lk/x.trash'', ''/r/sub/deep/b.trash'', ''/r/sub/deep/c.py'']\<rparr>)) = Some EACCES"
    by code_simp
  note sweep = delete_trash_sweep [OF ne, of t_os fs_trash not_trash]
  from sweep have a: "delete_trash t_os (Some ''/r'') fs_trash
      = fs_trash\<lparr>files := [''/r/keep.txt'', ''/r/lk/x.trash'', ''/r/sub/deep/c.py'']\<rparr>"
    by (simp add: targets_trash sweep_trash)
  from sweep fr have c: "not_trash (delete_trash t_os (Some ''/r'') fs_trash) = not_trash fs_trash"
    by blast
  show ?thesis
    by (intro conjI) (rule a, rule e, rule c)
qed

section \<open>Pruning of the empty parents\<close>

lemma loop_prunes:
  "prunable env (chain env pp n) s \<Longrightarrow>
   keeps env (nth_ancestor env pp n) (rmdir_all env (chain env pp n) s) \<Longrightarrow>
   remove_empty_loop env pp s = Some (rmdir_all env (chain env pp n) s, None)"
proof (induction n arbitrary: pp s)
  case 0
  then show ?case
    by (subst remove_empty_loop.simps)
       (auto simp: keeps_def rmdir_all_def split: if_splits sum.splits list.splits)
next
  case (Suc n)
  from Suc.prems(1) have a: "isdir env pp s" "listdir env pp s = Inr []"
    "snd (rmdir env pp s) = None"
    and rest: "prunable env (chain env (dirname env pp) n) (fst (rmdir env pp s))"
    by simp_all
  from Suc.prems(2) have k: "keeps env (nth_ancestor env (dirname env pp) n)
      (rmdir_all env (chain env (dirname env pp) n) (fst (rmdir env pp s)))"
    by (simp add: rmdir_all_def)
  have ih: "remove_empty_loop env (dirname env pp) (fst (rmdir env pp s))
     = Some (rmdir_all env (chain env (dirname env pp) n) (fst (rmdir env pp s)), None)"
    by (rule Suc.IH [OF rest k])
  obtain s' where r: "rmdir env pp s = (s', None)"
    using a(3) by (cases "rmdir env pp s") simp
  have "remove_empty_loop env pp s = remove_empty_loop env (dirname env pp) s'"
    by (subst remove_empty_loop.simps) (simp add: a r)
  with ih r show ?case
    by (simp add: rmdir_all_def)
qed

lemma loop_returns_pruned:
  assumes "remove_empty_loop env pp s = Some r"
  shows "snd r = None \<longrightarrow> (\<exists>n. prunable env (chain env pp n) s
            \<and> keeps env (nth_ancestor env pp n) (fst r)
            \<and> fst r = rmdir_all env (chain env pp n) s)"
  using assms
proof (induction env pp s r rule: remove_empty_loop.raw_induct [rotated 1, consumes 1, case_names 1])
  case (1 loop env pp s r)
  show ?case
  proof (cases "isdir env pp s")
    case False
    with 1(2) have "r = (s, None)" by simp
    with False have "prunable env (chain env pp 0) s \<and> keeps env (nth_ancestor env pp 0) (fst r)
        \<and> fst r = rmdir_all env (chain env pp 0) s"
      by (simp add: keeps_def rmdir_all_def)
    then show ?thesis by blast
  next
    case d: True
    show ?thesis
    proof (cases "listdir env pp s")
      case (Inl e)
      with d 1(2) show ?thesis by auto
    next
      case (Inr names)
      show ?thesis
      proof (cases names)
        case (Cons x xs)
        with d Inr 1(2) have "r = (s, None)" by simp
        with d Inr Cons have "prunable env (chain env pp 0) s
            \<and> keeps env (nth_ancestor env pp 0) (fst r)
            \<and> fst r = rmdir_all env (chain env pp 0) s"
          by (simp add: keeps_def rmdir_all_def)
        then show ?thesis by blast
      next
        case Nil
        obtain s' x where rd: "rmdir env pp s = (s', x)" by (cases "rmdir env pp s")
        show ?thesis
        proof (cases x)
          case (Some e)
          with d Inr Nil rd 1(2) show ?thesis by auto
        next
          case None
          with d Inr Nil rd 1(2) have call: "loop env (dirname env pp) s' = Some r" by simp
          show ?thesis
          proof
            assume "snd r = None"
            with 1(1) [OF call] obtain n where n: "prunable env (chain env (dirname env pp) n) s'"
              "keeps env (nth_ancestor env (dirname env pp) n) (fst r)"
              "fst r = rmdir_all env (chain env (dirname env pp) n) s'"
              by blast
            with d Inr Nil rd None have "prunable env (chain env pp (Suc n)) s
              \<and> keeps env (nth_ancestor env pp (Suc n)) (fst r)
              \<and> fst r = rmdir_all env (chain env pp (Suc n)) s"
              by (simp add: rmdir_all_def)
            then show "\<exists>n. prunable env (chain env pp n) s
              \<and> keeps env (nth_ancestor env pp n) (fst r)
              \<and> fst r = rmdir_all env (chain env pp n) s" by blast
          qed
        qed
      qed
    qed
  qed
qed

lemma try_tree:
  "rm_rf_try t_os ''/a/b/c/target'' fs_tree =
     (fs_tree\<lparr>files := [''/a/other'']\<rparr>, ''/a/b/c/target'', None)"
  by code_simp

text \<open>
  C8. Let the \<^verbatim>\<open>try\<close> block leave the state \<open>s1\<close> and the path \<open>p1\<close>. With
  \<^verbatim>\<open>clean_empty_parents\<close> set, \<^verbatim>\<open>rm_rf\<close> returns \<^verbatim>\<open>True\<close> in the state \<open>s'\<close> exactly when the path
  is absent in \<open>s1\<close>, the block raised nothing, and for some \<open>n\<close>: each of the first \<open>n\<close>
  ancestors of \<open>p1\<close>, from the parent upward, was at its turn a directory with no entry
  that \<^verbatim>\<open>rmdir\<close> removed; the next ancestor is not a directory or has an entry in \<open>s'\<close>; and
  \<open>s'\<close> is \<open>s1\<close> after these \<open>n\<close> calls of \<^verbatim>\<open>rmdir\<close> and nothing else, so that ancestor and
  everything above it are as \<^verbatim>\<open>rmdir\<close> of the directories below left them.
\<close>

theorem rm_rf_prunes_empty_parents:
  assumes "rm_rf_try env p s = (s1, p1, x)"
  shows "rm_rf env p mr t True s = Some (s', Inr True) \<longleftrightarrow>
     (\<not> lexists env p1 s1 \<and> x = None \<and>
      (\<exists>n. prunable env (ancestors env p1 n) s1
         \<and> keeps env (nth_ancestor env p1 (Suc n)) s'
         \<and> s' = rmdir_all env (ancestors env p1 n) s1))"
proof
  assume r: "rm_rf env p mr t True s = Some (s', Inr True)"
  with assms have a: "\<not> lexists env p1 s1" "x = None"
    by (auto simp: rm_rf_def split: if_splits option.splits)
  with r assms have "remove_empty_loop env (dirname env p1) s1 = Some (s', None)"
    by (auto simp: rm_rf_def remove_empty_parent_paths_def split: option.splits prod.splits)
  from loop_returns_pruned [OF this] a show "\<not> lexists env p1 s1 \<and> x = None \<and>
      (\<exists>n. prunable env (ancestors env p1 n) s1
         \<and> keeps env (nth_ancestor env p1 (Suc n)) s'
         \<and> s' = rmdir_all env (ancestors env p1 n) s1)"
    by (simp add: ancestors_def)
next
  assume "\<not> lexists env p1 s1 \<and> x = None \<and>
      (\<exists>n. prunable env (ancestors env p1 n) s1
         \<and> keeps env (nth_ancestor env p1 (Suc n)) s'
         \<and> s' = rmdir_all env (ancestors env p1 n) s1)"
  then obtain n where a: "\<not> lexists env p1 s1" "x = None"
    and n: "prunable env (chain env (dirname env p1) n) s1"
      "keeps env (nth_ancestor env (dirname env p1) n)
         (rmdir_all env (chain env (dirname env p1) n) s1)"
      "s' = rmdir_all env (chain env (dirname env p1) n) s1"
    by (auto simp: ancestors_def)
  from loop_prunes [OF n(1,2)] n(3) a assms
  show "rm_rf env p mr t True s = Some (s', Inr True)"
    by (simp add: rm_rf_def remove_empty_parent_paths_def)
qed

theorem rm_rf_prunes_empty_parents_witness:
  "rm_rf t_os ''/a/b/c/target'' 5 True True fs_tree
     = Some (fs_tree\<lparr>files := [''/a/other''], dirs := [''/'', ''/a'']\<rparr>, Inr True)
   \<and> ancestors t_os ''/a/b/c/target'' 2 = [''/a/b/c'', ''/a/b'']
   \<and> nth_ancestor t_os ''/a/b/c/target'' 3 = ''/a''
   \<and> isdir t_os ''/a'' (fs_tree\<lparr>files := [''/a/other''], dirs := [''/'', ''/a'']\<rparr>)"
proof -
  have ab: "\<not> lexists t_os ''/a/b/c/target'' (fs_tree\<lparr>files := [''/a/other'']\<rparr>)"
    by (simp add: t_os_def t_lexists_def fs_tree_def)
  have pr: "prunable t_os (ancestors t_os ''/a/b/c/target'' 2) (fs_tree\<lparr>files := [''/a/other'']\<rparr>)"
    by code_simp
  have st: "fs_tree\<lparr>files := [''/a/other''], dirs := [''/'', ''/a'']\<rparr>
      = rmdir_all t_os (ancestors t_os ''/a/b/c/target'' 2) (fs_tree\<lparr>files := [''/a/other'']\<rparr>)"
    by code_simp
  have kp: "keeps t_os (nth_ancestor t_os ''/a/b/c/target'' (Suc 2))
      (fs_tree\<lparr>files := [''/a/other''], dirs := [''/'', ''/a'']\<rparr>)"
    by code_simp
  have an: "ancestors t_os ''/a/b/c/target'' 2 = [''/a/b/c'', ''/a/b'']"
    "nth_ancestor t_os ''/a/b/c/target'' 3 = ''/a''"
    "isdir t_os ''/a'' (fs_tree\<lparr>files := [''/a/other''], dirs := [''/'', ''/a'']\<rparr>)"
    by code_simp+
  from ab pr st kp have "\<not> lexists t_os ''/a/b/c/target'' (fs_tree\<lparr>files := [''/a/other'']\<rparr>)
     \<and> (None :: exn option) = None
     \<and> (\<exists>n. prunable t_os (ancestors t_os ''/a/b/c/target'' n) (fs_tree\<lparr>files := [''/a/other'']\<rparr>)
         \<and> keeps t_os (nth_ancestor t_os ''/a/b/c/target'' (Suc n))
              (fs_tree\<lparr>files := [''/a/other''], dirs := [''/'', ''/a'']\<rparr>)
         \<and> fs_tree\<lparr>files := [''/a/other''], dirs := [''/'', ''/a'']\<rparr>
              = rmdir_all t_os (ancestors t_os ''/a/b/c/target'' n)
                  (fs_tree\<lparr>files := [''/a/other'']\<rparr>))"
    by blast
  then have "rm_rf t_os ''/a/b/c/target'' 5 True True fs_tree
     = Some (fs_tree\<lparr>files := [''/a/other''], dirs := [''/'', ''/a'']\<rparr>, Inr True)"
    by (rule rm_rf_prunes_empty_parents [OF try_tree, THEN iffD2])
  with an show ?thesis by simp
qed

end
